theory Spec2Isabelle
  imports Main "HOL-Library.Word"
begin

section \<open>The data model of \<open>backend/app/models\<close>\<close>

text \<open>
  The repository declares five SQLAlchemy tables. Each mapped class becomes a record,
  each \<open>Enum\<close> a datatype, each \<open>Optional[...]\<close> (nullable) column an \<open>option\<close>;
  a column declared \<open>nullable=False\<close> has a plain type, so a missing value cannot be
  written down. The \<open>id\<close> column comes from \<open>UUIDMixin\<close> and is referenced by every
  \<open>ForeignKey("....id")\<close>; identifiers are 128-bit values. The timestamp columns of
  \<open>TimestampMixin\<close> play no part in any constraint and are left out.
\<close>

type_synonym uuid = "128 word"

type_synonym date = int

text \<open>
  A \<open>decimal.Decimal\<close>. A finite value \<open>Finite c e\<close> is the integer coefficient \<open>c\<close>
  times ten to the exponent \<open>e\<close>, so that \<open>Decimal("0.00")\<close> is \<open>Finite 0 (-2)\<close> and
  \<open>Decimal("12.5")\<close> is \<open>Finite 125 (-1)\<close>. Besides the finite values the type has
  the quiet and the signalling not-a-number and the two infinities (\<open>Infinity True\<close> is
  the negative one); the sign and payload of a not-a-number are left out.
\<close>

datatype Decimal = Finite int int | NaN | SNaN | Infinity bool

datatype AccountType = CHECKING | SAVINGS | CREDIT_CARD | CASH | INVESTMENT | LOAN | OTHER

datatype TransactionType = INCOME | EXPENSE | TRANSFER

datatype CategoryType = CATEGORY_INCOME | CATEGORY_EXPENSE

datatype BudgetPeriod = DAILY | WEEKLY | MONTHLY | QUARTERLY | YEARLY

record User =
  u_id :: uuid
  email :: string
  hashed_password :: string
  full_name :: string

record Account =
  a_id :: uuid
  a_user_id :: uuid
  a_name :: string
  account_type :: AccountType
  balance :: Decimal
  currency :: string
  is_active :: bool

record TransactionCategory =
  c_id :: uuid
  c_user_id :: "uuid option"
  c_name :: string
  category_type :: CategoryType
  color :: "string option"
  icon :: "string option"
  is_system :: bool
  parent_category_id :: "uuid option"

record Transaction =
  t_id :: uuid
  account_id :: uuid
  category_id :: "uuid option"
  amount :: Decimal
  transaction_type :: TransactionType
  description :: string
  transaction_date :: date
  t_notes :: "string option"
  linked_transaction_id :: "uuid option"

record Budget =
  b_id :: uuid
  b_user_id :: uuid
  b_category_id :: uuid
  b_amount :: Decimal
  period :: BudgetPeriod
  start_date :: date
  end_date :: "date option"

text \<open>The database: one list of rows per \<open>__tablename__\<close>, in insertion order.\<close>

record db =
  users :: "User list"
  accounts :: "Account list"
  categories :: "TransactionCategory list"
  transactions :: "Transaction list"
  budgets :: "Budget list"

definition empty_db :: db where
  "empty_db = \<lparr>users = [], accounts = [], categories = [], transactions = [], budgets = []\<rparr>"

text \<open>
  What a rejected statement raises: a duplicate \<open>id\<close>, a duplicate value in a
  \<open>unique=True\<close> column, a \<open>ForeignKey\<close> naming no row, a value that does not fit
  \<open>Numeric(precision, scale)\<close> or is no number the column takes, a string longer than
  its \<open>String(n)\<close>, and a statement aimed at a row that is not there.
\<close>

datatype error =
    PrimaryKeyViolation | UniqueViolation | ForeignKeyViolation
  | NumericOverflow | InvalidNumeric | StringTooLong | NotFound

subsection \<open>Column types and defaults\<close>

text \<open>
  What the models leave to the storage backend and its driver: how a value with more
  fractional digits than the column's scale is rounded (\<open>rounding c k\<close> is the integer
  made of \<open>c / 10 ^ k\<close>), and whether an infinity or a signalling not-a-number is sent
  as a quiet not-a-number or as itself.
\<close>

record backend =
  rounding :: "int \<Rightarrow> nat \<Rightarrow> int"
  nonfinite_as_nan :: bool

text \<open>
  \<open>Numeric(precision=p, scale=s)\<close>: a finite value is stored with exactly \<open>s\<close>
  fractional digits and at most \<open>p\<close> digits in all; one with fewer fractional digits is
  padded exactly, one with more is rounded by the backend, and one too large is
  rejected. The column takes a not-a-number and stores it as such. An infinity or a
  signalling not-a-number that reaches the column as itself is rejected: a column with a
  precision holds no infinity, and the latter is no numeric input.
\<close>

definition numeric :: "backend \<Rightarrow> nat \<Rightarrow> nat \<Rightarrow> Decimal \<Rightarrow> error + Decimal" where
  "numeric bk p s d =
     (case d of
        Finite c e \<Rightarrow>
          (let k = e + int s;
               c' = (if 0 \<le> k then c * 10 ^ nat k else rounding bk c (nat (- k)))
           in if \<bar>c'\<bar> < 10 ^ p then Inr (Finite c' (- int s)) else Inl NumericOverflow)
      | NaN \<Rightarrow> Inr NaN
      | SNaN \<Rightarrow> if nonfinite_as_nan bk then Inr NaN else Inl InvalidNumeric
      | Infinity neg \<Rightarrow> if nonfinite_as_nan bk then Inr NaN else Inl NumericOverflow)"

text \<open>
  \<open>String(n)\<close>: a value of at most \<open>n\<close> characters is stored as it is and a longer one
  is rejected. (A backend that cuts trailing spaces off an over-long value instead of
  rejecting it accepts more than this model does; whatever is accepted here is accepted
  there, with the same row.) \<open>Text\<close> has no bound.
\<close>

definition fits :: "nat \<Rightarrow> string \<Rightarrow> bool" where
  "fits n v = (length v \<le> n)"

definition fits_opt :: "nat \<Rightarrow> string option \<Rightarrow> bool" where
  "fits_opt n v = (case v of None \<Rightarrow> True | Some x \<Rightarrow> fits n x)"

text \<open>
  \<open>Account(...)\<close>: \<open>balance\<close>, \<open>currency\<close> and \<open>is_active\<close> carry a \<open>default=\<close>, used when
  the caller supplies no value (\<open>None\<close> here); every other column must be supplied.
\<close>

definition new_Account ::
  "uuid \<Rightarrow> uuid \<Rightarrow> string \<Rightarrow> AccountType \<Rightarrow> Decimal option \<Rightarrow> string option \<Rightarrow> bool option \<Rightarrow> Account" where
  "new_Account i owner nm ty bal cur act =
     \<lparr>a_id = i, a_user_id = owner, a_name = nm, account_type = ty,
      balance = (case bal of None \<Rightarrow> Finite 0 (- 2) | Some b \<Rightarrow> b),
      currency = (case cur of None \<Rightarrow> ''USD'' | Some c \<Rightarrow> c),
      is_active = (case act of None \<Rightarrow> True | Some b \<Rightarrow> b)\<rparr>"

text \<open>\<open>TransactionCategory(...)\<close>: \<open>is_system\<close> defaults to \<open>False\<close>.\<close>

definition new_TransactionCategory ::
  "uuid \<Rightarrow> uuid option \<Rightarrow> string \<Rightarrow> CategoryType \<Rightarrow> string option \<Rightarrow> string option \<Rightarrow>
   bool option \<Rightarrow> uuid option \<Rightarrow> TransactionCategory" where
  "new_TransactionCategory i owner nm ty col ic sys par =
     \<lparr>c_id = i, c_user_id = owner, c_name = nm, category_type = ty, color = col, icon = ic,
      is_system = (case sys of None \<Rightarrow> False | Some b \<Rightarrow> b),
      parent_category_id = par\<rparr>"

subsection \<open>Row-level helpers\<close>

definition replace_row :: "('a \<Rightarrow> uuid) \<Rightarrow> 'a \<Rightarrow> 'a list \<Rightarrow> 'a list" where
  "replace_row key r xs = map (\<lambda>x. if key x = key r then r else x) xs"

text \<open>A nullable foreign key is satisfied by \<open>NULL\<close> or by the id of a row.\<close>

definition refers :: "uuid option \<Rightarrow> uuid set \<Rightarrow> bool" where
  "refers r ids = (case r of None \<Rightarrow> True | Some i \<Rightarrow> i \<in> ids)"

definition points_into :: "uuid option \<Rightarrow> uuid list \<Rightarrow> bool" where
  "points_into r D = (case r of None \<Rightarrow> False | Some i \<Rightarrow> i \<in> set D)"

definition user_ids :: "db \<Rightarrow> uuid set" where
  "user_ids s = u_id ` set (users s)"

definition account_ids :: "db \<Rightarrow> uuid set" where
  "account_ids s = a_id ` set (accounts s)"

definition category_ids :: "db \<Rightarrow> uuid set" where
  "category_ids s = c_id ` set (categories s)"

definition transaction_ids :: "db \<Rightarrow> uuid set" where
  "transaction_ids s = t_id ` set (transactions s)"

definition budget_ids :: "db \<Rightarrow> uuid set" where
  "budget_ids s = b_id ` set (budgets s)"

subsection \<open>Deleting rows: what each \<open>ondelete=\<close> does\<close>

text \<open>
  \<open>transactions.linked_transaction_id\<close> is \<open>ForeignKey("transactions.id",
  ondelete="SET NULL")\<close>: when the rows \<open>D\<close> go, every remaining row that linked to one
  of them keeps everything but its link.
\<close>

definition delete_transaction_rows :: "uuid list \<Rightarrow> db \<Rightarrow> db" where
  "delete_transaction_rows D s =
     s\<lparr>transactions :=
        map (\<lambda>t. if points_into (linked_transaction_id t) D
                 then t\<lparr>linked_transaction_id := None\<rparr> else t)
            (filter (\<lambda>t. t_id t \<notin> set D) (transactions s))\<rparr>"

text \<open>
  \<open>transactions.account_id\<close> is \<open>ForeignKey("accounts.id", ondelete="CASCADE")\<close>, and
  \<open>Account.transactions\<close> cascades \<open>"all, delete-orphan"\<close>: the transactions of a deleted
  account are deleted, with the effect above on the rows linked to them.
\<close>

definition delete_account_rows :: "uuid list \<Rightarrow> db \<Rightarrow> db" where
  "delete_account_rows A s =
     delete_transaction_rows
       (map t_id (filter (\<lambda>t. account_id t \<in> set A) (transactions s)))
       (s\<lparr>accounts := filter (\<lambda>a. a_id a \<notin> set A) (accounts s)\<rparr>)"

text \<open>
  \<open>transaction_categories.parent_category_id\<close> is \<open>ForeignKey("transaction_categories.id",
  ondelete="CASCADE")\<close> (\<open>subcategories\<close> cascades \<open>"all, delete-orphan"\<close>): deleting the
  categories \<open>D\<close> deletes their children, the children of those, and so on. \<open>subtree\<close>
  adds the rows whose parent is already doomed until no row is added.
\<close>

function subtree :: "TransactionCategory list \<Rightarrow> uuid list \<Rightarrow> uuid list" where
  "subtree cs D =
     (let new = filter (\<lambda>c. c_id c \<notin> set D \<and> points_into (parent_category_id c) D) cs
      in if new = [] then D else subtree cs (D @ map c_id new))"
  by pat_completeness auto
termination
proof (relation "measure (\<lambda>(cs, D). card (c_id ` set cs - set D))")
  show "wf (measure (\<lambda>(cs, D). card (c_id ` set cs - set D)))"
    by simp
next
  fix cs :: "TransactionCategory list" and D :: "uuid list" and new
  assume new: "new = filter (\<lambda>c. c_id c \<notin> set D \<and> points_into (parent_category_id c) D) cs"
    and ne: "new \<noteq> []"
  from ne obtain c where c: "c \<in> set new"
    by (cases new) auto
  with new have "c_id c \<in> c_id ` set cs - set D" and "c_id c \<in> set (D @ map c_id new)"
    by auto
  then have "c_id ` set cs - set (D @ map c_id new) \<subset> c_id ` set cs - set D"
    by auto
  then have "card (c_id ` set cs - set (D @ map c_id new)) < card (c_id ` set cs - set D)"
    by (intro psubset_card_mono) auto
  then show "((cs, D @ map c_id new), (cs, D)) \<in> measure (\<lambda>(cs, D). card (c_id ` set cs - set D))"
    by simp
qed

declare subtree.simps [simp del]

text \<open>
  \<open>budgets.category_id\<close> is \<open>ondelete="CASCADE"\<close> (\<open>TransactionCategory.budgets\<close>
  cascades \<open>"all, delete-orphan"\<close>); \<open>transactions.category_id\<close> is
  \<open>ondelete="SET NULL"\<close> and \<open>TransactionCategory.transactions\<close> has no cascade.
\<close>

definition delete_category_rows :: "uuid list \<Rightarrow> db \<Rightarrow> db" where
  "delete_category_rows C s =
     (let D = subtree (categories s) C
      in s\<lparr>categories := filter (\<lambda>c. c_id c \<notin> set D) (categories s),
           budgets := filter (\<lambda>b. b_category_id b \<notin> set D) (budgets s),
           transactions :=
             map (\<lambda>t. if points_into (category_id t) D then t\<lparr>category_id := None\<rparr> else t)
                 (transactions s)\<rparr>)"

text \<open>
  \<open>accounts.user_id\<close>, \<open>transaction_categories.user_id\<close> and \<open>budgets.user_id\<close> are
  \<open>ForeignKey("users.id", ondelete="CASCADE")\<close>, and \<open>User.accounts\<close>,
  \<open>User.categories\<close>, \<open>User.budgets\<close> cascade \<open>"all, delete-orphan"\<close>.
\<close>

definition delete_user_row :: "uuid \<Rightarrow> db \<Rightarrow> db" where
  "delete_user_row u s =
     (let s1 = delete_account_rows (map a_id (filter (\<lambda>a. a_user_id a = u) (accounts s))) s;
          s2 = delete_category_rows
                 (map c_id (filter (\<lambda>c. c_user_id c = Some u) (categories s1))) s1
      in s2\<lparr>users := filter (\<lambda>v. u_id v \<noteq> u) (users s2),
            budgets := filter (\<lambda>b. b_user_id b \<noteq> u) (budgets s2)\<rparr>)"

subsection \<open>Inserting and updating rows: what the column constraints check\<close>

text \<open>
  The column types come first, then the constraints. \<open>users.email\<close>,
  \<open>users.hashed_password\<close> and \<open>users.full_name\<close> are \<open>String(255)\<close>; \<open>email\<close> is
  \<open>unique=True\<close> besides: a plain string column, compared character by character.
\<close>

definition user_strings_fit :: "User \<Rightarrow> bool" where
  "user_strings_fit u =
     (fits 255 (email u) \<and> fits 255 (hashed_password u) \<and> fits 255 (full_name u))"

definition insert_user :: "User \<Rightarrow> db \<Rightarrow> error + db" where
  "insert_user u s =
     (if \<not> user_strings_fit u then Inl StringTooLong
      else if u_id u \<in> user_ids s then Inl PrimaryKeyViolation
      else if email u \<in> email ` set (users s) then Inl UniqueViolation
      else Inr (s\<lparr>users := users s @ [u]\<rparr>))"

definition update_user :: "User \<Rightarrow> db \<Rightarrow> error + db" where
  "update_user u s =
     (if \<not> user_strings_fit u then Inl StringTooLong
      else if u_id u \<notin> user_ids s then Inl NotFound
      else if email u \<in> email ` set (filter (\<lambda>v. u_id v \<noteq> u_id u) (users s))
      then Inl UniqueViolation
      else Inr (s\<lparr>users := replace_row u_id u (users s)\<rparr>))"

text \<open>\<open>accounts.name\<close> is \<open>String(255)\<close> and \<open>accounts.currency\<close> is \<open>String(3)\<close>.\<close>

definition account_strings_fit :: "Account \<Rightarrow> bool" where
  "account_strings_fit a = (fits 255 (a_name a) \<and> fits 3 (currency a))"

definition insert_account :: "backend \<Rightarrow> Account \<Rightarrow> db \<Rightarrow> error + db" where
  "insert_account bk a s =
     (if \<not> account_strings_fit a then Inl StringTooLong
      else case numeric bk 15 2 (balance a) of
        Inl e \<Rightarrow> Inl e
      | Inr m \<Rightarrow>
          if a_id a \<in> account_ids s then Inl PrimaryKeyViolation
          else if a_user_id a \<notin> user_ids s then Inl ForeignKeyViolation
          else Inr (s\<lparr>accounts := accounts s @ [a\<lparr>balance := m\<rparr>]\<rparr>))"

definition update_account :: "backend \<Rightarrow> Account \<Rightarrow> db \<Rightarrow> error + db" where
  "update_account bk a s =
     (if \<not> account_strings_fit a then Inl StringTooLong
      else case numeric bk 15 2 (balance a) of
        Inl e \<Rightarrow> Inl e
      | Inr m \<Rightarrow>
          if a_id a \<notin> account_ids s then Inl NotFound
          else if a_user_id a \<notin> user_ids s then Inl ForeignKeyViolation
          else Inr (s\<lparr>accounts := replace_row a_id (a\<lparr>balance := m\<rparr>) (accounts s)\<rparr>))"

text \<open>
  \<open>transaction_categories.name\<close> is \<open>String(100)\<close>, \<open>color\<close> is \<open>String(7)\<close> and
  \<open>icon\<close> is \<open>String(50)\<close>; \<open>transactions.description\<close> is \<open>String(255)\<close> and
  \<open>transactions.notes\<close> is \<open>Text\<close>. A foreign key is checked once the statement's row
  is in place, so a row may name itself as its parent (or as its linked transaction).
\<close>

definition category_strings_fit :: "TransactionCategory \<Rightarrow> bool" where
  "category_strings_fit c = (fits 100 (c_name c) \<and> fits_opt 7 (color c) \<and> fits_opt 50 (icon c))"

definition insert_category :: "TransactionCategory \<Rightarrow> db \<Rightarrow> error + db" where
  "insert_category c s =
     (if \<not> category_strings_fit c then Inl StringTooLong
      else if c_id c \<in> category_ids s then Inl PrimaryKeyViolation
      else if \<not> refers (c_user_id c) (user_ids s)
              \<or> \<not> refers (parent_category_id c) (insert (c_id c) (category_ids s))
      then Inl ForeignKeyViolation
      else Inr (s\<lparr>categories := categories s @ [c]\<rparr>))"

definition update_category :: "TransactionCategory \<Rightarrow> db \<Rightarrow> error + db" where
  "update_category c s =
     (if \<not> category_strings_fit c then Inl StringTooLong
      else if c_id c \<notin> category_ids s then Inl NotFound
      else if \<not> refers (c_user_id c) (user_ids s)
              \<or> \<not> refers (parent_category_id c) (category_ids s)
      then Inl ForeignKeyViolation
      else Inr (s\<lparr>categories := replace_row c_id c (categories s)\<rparr>))"

definition insert_transaction :: "backend \<Rightarrow> Transaction \<Rightarrow> db \<Rightarrow> error + db" where
  "insert_transaction bk t s =
     (if \<not> fits 255 (description t) then Inl StringTooLong
      else case numeric bk 15 2 (amount t) of
        Inl e \<Rightarrow> Inl e
      | Inr m \<Rightarrow>
          if t_id t \<in> transaction_ids s then Inl PrimaryKeyViolation
          else if account_id t \<notin> account_ids s
                  \<or> \<not> refers (category_id t) (category_ids s)
                  \<or> \<not> refers (linked_transaction_id t) (insert (t_id t) (transaction_ids s))
          then Inl ForeignKeyViolation
          else Inr (s\<lparr>transactions := transactions s @ [t\<lparr>amount := m\<rparr>]\<rparr>))"

definition update_transaction :: "backend \<Rightarrow> Transaction \<Rightarrow> db \<Rightarrow> error + db" where
  "update_transaction bk t s =
     (if \<not> fits 255 (description t) then Inl StringTooLong
      else case numeric bk 15 2 (amount t) of
        Inl e \<Rightarrow> Inl e
      | Inr m \<Rightarrow>
          if t_id t \<notin> transaction_ids s then Inl NotFound
          else if account_id t \<notin> account_ids s
                  \<or> \<not> refers (category_id t) (category_ids s)
                  \<or> \<not> refers (linked_transaction_id t) (transaction_ids s)
          then Inl ForeignKeyViolation
          else Inr (s\<lparr>transactions := replace_row t_id (t\<lparr>amount := m\<rparr>) (transactions s)\<rparr>))"

text \<open>
  The \<open>budgets\<close> table declares its two foreign keys and the column types, and no
  constraint over \<open>period\<close>, \<open>start_date\<close> or \<open>end_date\<close>.
\<close>

definition insert_budget :: "backend \<Rightarrow> Budget \<Rightarrow> db \<Rightarrow> error + db" where
  "insert_budget bk b s =
     (case numeric bk 15 2 (b_amount b) of
        Inl e \<Rightarrow> Inl e
      | Inr m \<Rightarrow>
          if b_id b \<in> budget_ids s then Inl PrimaryKeyViolation
          else if b_user_id b \<notin> user_ids s \<or> b_category_id b \<notin> category_ids s
          then Inl ForeignKeyViolation
          else Inr (s\<lparr>budgets := budgets s @ [b\<lparr>b_amount := m\<rparr>]\<rparr>))"

definition update_budget :: "backend \<Rightarrow> Budget \<Rightarrow> db \<Rightarrow> error + db" where
  "update_budget bk b s =
     (case numeric bk 15 2 (b_amount b) of
        Inl e \<Rightarrow> Inl e
      | Inr m \<Rightarrow>
          if b_id b \<notin> budget_ids s then Inl NotFound
          else if b_user_id b \<notin> user_ids s \<or> b_category_id b \<notin> category_ids s
          then Inl ForeignKeyViolation
          else Inr (s\<lparr>budgets := replace_row b_id (b\<lparr>b_amount := m\<rparr>) (budgets s)\<rparr>))"

subsection \<open>Statements and sessions\<close>

text \<open>
  The only writes the models admit are the ORM's own: add a row, change a row, delete a
  row, each subject to the declarations above. A session is a list of them, stopped by
  the first error.
\<close>

datatype statement =
    InsertUser User | UpdateUser User | DeleteUser uuid
  | InsertAccount Account | UpdateAccount Account | DeleteAccount uuid
  | InsertCategory TransactionCategory | UpdateCategory TransactionCategory | DeleteCategory uuid
  | InsertTransaction Transaction | UpdateTransaction Transaction | DeleteTransaction uuid
  | InsertBudget Budget | UpdateBudget Budget | DeleteBudget uuid

fun exec :: "backend \<Rightarrow> statement \<Rightarrow> db \<Rightarrow> error + db" where
  "exec bk (InsertUser u) s = insert_user u s"
| "exec bk (UpdateUser u) s = update_user u s"
| "exec bk (DeleteUser i) s =
     (if i \<in> user_ids s then Inr (delete_user_row i s) else Inl NotFound)"
| "exec bk (InsertAccount a) s = insert_account bk a s"
| "exec bk (UpdateAccount a) s = update_account bk a s"
| "exec bk (DeleteAccount i) s =
     (if i \<in> account_ids s then Inr (delete_account_rows [i] s) else Inl NotFound)"
| "exec bk (InsertCategory c) s = insert_category c s"
| "exec bk (UpdateCategory c) s = update_category c s"
| "exec bk (DeleteCategory i) s =
     (if i \<in> category_ids s then Inr (delete_category_rows [i] s) else Inl NotFound)"
| "exec bk (InsertTransaction t) s = insert_transaction bk t s"
| "exec bk (UpdateTransaction t) s = update_transaction bk t s"
| "exec bk (DeleteTransaction i) s =
     (if i \<in> transaction_ids s then Inr (delete_transaction_rows [i] s) else Inl NotFound)"
| "exec bk (InsertBudget b) s = insert_budget bk b s"
| "exec bk (UpdateBudget b) s = update_budget bk b s"
| "exec bk (DeleteBudget i) s =
     (if i \<in> budget_ids s then Inr (s\<lparr>budgets := filter (\<lambda>b. b_id b \<noteq> i) (budgets s)\<rparr>)
      else Inl NotFound)"

fun run :: "backend \<Rightarrow> statement list \<Rightarrow> db \<Rightarrow> error + db" where
  "run bk [] s = Inr s"
| "run bk (x # xs) s = (case exec bk x s of Inl e \<Rightarrow> Inl e | Inr s' \<Rightarrow> run bk xs s')"

section \<open>What the constraints guarantee, and what the specification asks\<close>

subsection \<open>Constraints declared by the models\<close>

text \<open>Every \<open>id\<close> is a primary key: no two rows of a table share it.\<close>

definition pk_ok :: "db \<Rightarrow> bool" where
  "pk_ok s =
     (distinct (map u_id (users s)) \<and> distinct (map a_id (accounts s))
      \<and> distinct (map c_id (categories s)) \<and> distinct (map t_id (transactions s))
      \<and> distinct (map b_id (budgets s)))"

text \<open>Every \<open>ForeignKey\<close> column holds \<open>NULL\<close> (where nullable) or the id of a row.\<close>

definition fk_ok :: "db \<Rightarrow> bool" where
  "fk_ok s =
     ((\<forall>a\<in>set (accounts s). a_user_id a \<in> user_ids s)
      \<and> (\<forall>c\<in>set (categories s). refers (c_user_id c) (user_ids s)
             \<and> refers (parent_category_id c) (category_ids s))
      \<and> (\<forall>t\<in>set (transactions s). account_id t \<in> account_ids s
             \<and> refers (category_id t) (category_ids s)
             \<and> refers (linked_transaction_id t) (transaction_ids s))
      \<and> (\<forall>b\<in>set (budgets s). b_user_id b \<in> user_ids s \<and> b_category_id b \<in> category_ids s))"

text \<open>
  A fixed-point value with two fractional digits and at most 15 digits in all, and what
  a \<open>Numeric(precision=15, scale=2)\<close> column holds: such a value or a not-a-number.
\<close>

definition fixed_15_2 :: "Decimal \<Rightarrow> bool" where
  "fixed_15_2 d = (case d of Finite c e \<Rightarrow> e = - 2 \<and> \<bar>c\<bar> < 10 ^ 15 | _ \<Rightarrow> False)"

definition stored_15_2 :: "Decimal \<Rightarrow> bool" where
  "stored_15_2 d = (d = NaN \<or> fixed_15_2 d)"

definition money_stored :: "db \<Rightarrow> bool" where
  "money_stored s =
     ((\<forall>a\<in>set (accounts s). stored_15_2 (balance a))
      \<and> (\<forall>t\<in>set (transactions s). stored_15_2 (amount t))
      \<and> (\<forall>b\<in>set (budgets s). stored_15_2 (b_amount b)))"

text \<open>A link, when set, names exactly one row of the journal.\<close>

definition link_resolves :: "db \<Rightarrow> bool" where
  "link_resolves s =
     (\<forall>t\<in>set (transactions s).
        case linked_transaction_id t of
          None \<Rightarrow> True
        | Some l \<Rightarrow> length (filter (\<lambda>p. t_id p = l) (transactions s)) = 1)"

text \<open>A parent, when set, names exactly one row of the category table.\<close>

definition parent_resolves :: "db \<Rightarrow> bool" where
  "parent_resolves s =
     (\<forall>c\<in>set (categories s).
        case parent_category_id c of
          None \<Rightarrow> True
        | Some p \<Rightarrow> length (filter (\<lambda>k. c_id k = p) (categories s)) = 1)"

subsection \<open>Invariants as the specification words them\<close>

text \<open>
  Money in the specification's words: every balance, amount and budget limit is an
  exact fixed-point decimal with two decimal places.
\<close>

definition money_fixed :: "db \<Rightarrow> bool" where
  "money_fixed s =
     ((\<forall>a\<in>set (accounts s). fixed_15_2 (balance a))
      \<and> (\<forall>t\<in>set (transactions s). fixed_15_2 (amount t))
      \<and> (\<forall>b\<in>set (budgets s). fixed_15_2 (b_amount b)))"

text \<open>Two finite decimals of equal magnitude and opposite sign, whatever their exponents.\<close>

definition dec_opposite :: "Decimal \<Rightarrow> Decimal \<Rightarrow> bool" where
  "dec_opposite a b =
     (case (a, b) of
        (Finite ca ea, Finite cb eb) \<Rightarrow>
          (let m = min ea eb in ca * 10 ^ nat (ea - m) = - (cb * 10 ^ nat (eb - m)))
      | _ \<Rightarrow> False)"

text \<open>
  I3 in the specification's words: every transfer has a link partner that is a transfer
  on a different account, with equal and opposite amount, linking back.
\<close>

definition transfer_paired :: "db \<Rightarrow> bool" where
  "transfer_paired s =
     (\<forall>t\<in>set (transactions s). transaction_type t = TRANSFER \<longrightarrow>
        (\<exists>p\<in>set (transactions s).
           linked_transaction_id t = Some (t_id p) \<and> transaction_type p = TRANSFER
           \<and> account_id p \<noteq> account_id t \<and> dec_opposite (amount p) (amount t)
           \<and> linked_transaction_id p = Some (t_id t)))"

text \<open>
  The ancestor chain of a category: its parent, the parent's parent, and so on, for at
  most \<open>n\<close> steps. A chain that comes back to a category does so within as many steps
  as there are rows.
\<close>

fun ancestors :: "TransactionCategory list \<Rightarrow> nat \<Rightarrow> uuid option \<Rightarrow> uuid list" where
  "ancestors cs 0 r = []"
| "ancestors cs (Suc n) None = []"
| "ancestors cs (Suc n) (Some p) =
     p # (case find (\<lambda>c. c_id c = p) cs of
            None \<Rightarrow> []
          | Some c \<Rightarrow> ancestors cs n (parent_category_id c))"

text \<open>
  I2 in the specification's words: no category is among its own ancestors, and a
  category and its parent have the same owner (both none, or the same user).
\<close>

definition category_tree_ok :: "db \<Rightarrow> bool" where
  "category_tree_ok s =
     (\<forall>c\<in>set (categories s).
        c_id c \<notin> set (ancestors (categories s) (length (categories s)) (parent_category_id c))
        \<and> (\<forall>p\<in>set (categories s).
              parent_category_id c = Some (c_id p) \<longrightarrow> c_user_id p = c_user_id c))"

text \<open>
  I5 in the specification's words: the window of a budget runs from \<open>start_date\<close> to
  \<open>end_date\<close> (excluded), or without end when \<open>end_date\<close> is absent; the windows of two
  distinct budgets of the same user and category do not overlap.
\<close>

definition starts_before_end :: "date \<Rightarrow> date option \<Rightarrow> bool" where
  "starts_before_end d e = (case e of None \<Rightarrow> True | Some x \<Rightarrow> d < x)"

definition windows_overlap :: "Budget \<Rightarrow> Budget \<Rightarrow> bool" where
  "windows_overlap a b =
     (starts_before_end (start_date a) (end_date b) \<and> starts_before_end (start_date b) (end_date a))"

definition budgets_disjoint :: "db \<Rightarrow> bool" where
  "budgets_disjoint s =
     (\<forall>a\<in>set (budgets s). \<forall>b\<in>set (budgets s).
        b_id a \<noteq> b_id b \<and> b_user_id a = b_user_id b \<and> b_category_id a = b_category_id b
        \<longrightarrow> \<not> windows_overlap a b)"

text \<open>Email equality up to the case of ASCII letters.\<close>

definition ascii_lower :: "char \<Rightarrow> char" where
  "ascii_lower c =
     (case map_of (zip ''ABCDEFGHIJKLMNOPQRSTUVWXYZ'' ''abcdefghijklmnopqrstuvwxyz'') c of
        None \<Rightarrow> c
      | Some l \<Rightarrow> l)"

definition same_email_ci :: "string \<Rightarrow> string \<Rightarrow> bool" where
  "same_email_ci a b = (map ascii_lower a = map ascii_lower b)"

subsection \<open>Example data\<close>

text \<open>
  One possible backend, used in the examples only: it rounds downwards and sends an
  infinity or a signalling not-a-number as a quiet not-a-number.
\<close>

definition round_down :: backend where
  "round_down = \<lparr>rounding = (\<lambda>c k. c div 10 ^ k), nonfinite_as_nan = True\<rparr>"

definition ann :: User where
  "ann = \<lparr>u_id = 1, email = ''ann@x.com'', hashed_password = ''h1'', full_name = ''Ann''\<rparr>"

definition bob :: User where
  "bob = \<lparr>u_id = 2, email = ''bob@x.com'', hashed_password = ''h2'', full_name = ''Bob''\<rparr>"

definition groceries :: TransactionCategory where
  "groceries = new_TransactionCategory 30 (Some 1) ''Groceries'' CATEGORY_EXPENSE None None None None"

definition bakery :: TransactionCategory where
  "bakery = new_TransactionCategory 31 (Some 1) ''Bakery'' CATEGORY_EXPENSE None None None (Some 30)"

definition leg_a :: Transaction where
  "leg_a = \<lparr>t_id = 20, account_id = 10, category_id = None,
            amount = Finite (- 50) 0, transaction_type = TRANSFER,
            description = ''rent'', transaction_date = 738000, t_notes = None,
            linked_transaction_id = None\<rparr>"

definition leg_b :: Transaction where
  "leg_b = \<lparr>t_id = 21, account_id = 11, category_id = None,
            amount = Finite 5000 (- 2), transaction_type = TRANSFER,
            description = ''rent'', transaction_date = 738000, t_notes = None,
            linked_transaction_id = Some 20\<rparr>"

definition bread :: Transaction where
  "bread = \<lparr>t_id = 22, account_id = 12, category_id = Some 31,
            amount = Finite 125 (- 1), transaction_type = EXPENSE,
            description = ''bread'', transaction_date = 738001, t_notes = None,
            linked_transaction_id = None\<rparr>"

definition food_budget :: Budget where
  "food_budget = \<lparr>b_id = 40, b_user_id = 1, b_category_id = 30,
                  b_amount = Finite 400 0, period = MONTHLY,
                  start_date = 738000, end_date = None\<rparr>"

text \<open>
  The specification's scenario: a user with accounts A (10) and B (11), a transfer of
  50.00 from A to B written as two linked rows with both balances adjusted; besides, a
  second user with an account (12) and an expense filed under the first user's
  subcategory, and a budget.
\<close>

definition example_session :: "statement list" where
  "example_session =
     [InsertUser ann, InsertUser bob,
      InsertAccount (new_Account 10 1 ''A'' CHECKING None None None),
      InsertAccount (new_Account 11 1 ''B'' SAVINGS None None None),
      InsertAccount (new_Account 12 2 ''C'' CASH None (Some ''EUR'') None),
      InsertCategory groceries, InsertCategory bakery,
      InsertTransaction leg_a, InsertTransaction leg_b,
      UpdateTransaction (leg_a\<lparr>linked_transaction_id := Some 21\<rparr>),
      UpdateAccount (new_Account 10 1 ''A'' CHECKING (Some (Finite (- 5000) (- 2))) None None),
      UpdateAccount (new_Account 11 1 ''B'' SAVINGS (Some (Finite 5000 (- 2))) None None),
      InsertTransaction bread, InsertBudget food_budget]"

definition example_db :: db where
  "example_db =
     \<lparr>users = [ann, bob],
      accounts =
        [new_Account 10 1 ''A'' CHECKING (Some (Finite (- 5000) (- 2))) None None,
         new_Account 11 1 ''B'' SAVINGS (Some (Finite 5000 (- 2))) None None,
         new_Account 12 2 ''C'' CASH None (Some ''EUR'') None],
      categories = [groceries, bakery],
      transactions =
        [leg_a\<lparr>amount := Finite (- 5000) (- 2), linked_transaction_id := Some 21\<rparr>,
         leg_b,
         bread\<lparr>amount := Finite 1250 (- 2)\<rparr>],
      budgets = [food_budget\<lparr>b_amount := Finite 40000 (- 2)\<rparr>]\<rparr>"



definition example_without_leg_a :: db where
  "example_without_leg_a =
     example_db\<lparr>transactions :=
        [leg_b\<lparr>linked_transaction_id := None\<rparr>,
         bread\<lparr>amount := Finite 1250 (- 2)\<rparr>]\<rparr>"

definition example_without_account_a :: db where
  "example_without_account_a =
     example_without_leg_a\<lparr>accounts :=
        [new_Account 11 1 ''B'' SAVINGS (Some (Finite 5000 (- 2))) None None,
         new_Account 12 2 ''C'' CASH None (Some ''EUR'') None]\<rparr>"

text \<open>A second budget for the same user and category, and the database holding both.\<close>

definition weekly_food_budget :: Budget where
  "weekly_food_budget =
     food_budget\<lparr>b_id := 41, period := WEEKLY, start_date := 738010, end_date := Some 738100\<rparr>"

definition example_two_budgets :: db where
  "example_two_budgets =
     example_db\<lparr>budgets :=
       [food_budget\<lparr>b_amount := Finite 40000 (- 2)\<rparr>,
        weekly_food_budget\<lparr>b_amount := Finite 40000 (- 2)\<rparr>]\<rparr>"

text \<open>
  A journal holding one transfer leg only, and the category table after Groceries is
  moved under its own subcategory, or after Bakery is handed to the second user.
\<close>

definition example_lone_leg :: db where
  "example_lone_leg =
     empty_db\<lparr>users := [ann],
       accounts := [new_Account 10 1 ''A'' CHECKING None None None],
       transactions := [leg_a\<lparr>amount := Finite (- 5000) (- 2)\<rparr>]\<rparr>"

definition example_cycle :: db where
  "example_cycle =
     example_db\<lparr>categories := [groceries\<lparr>parent_category_id := Some 31\<rparr>, bakery]\<rparr>"

definition example_mixed_owner :: db where
  "example_mixed_owner =
     example_db\<lparr>categories := [groceries, bakery\<lparr>c_user_id := Some 2\<rparr>]\<rparr>"

text \<open>An account opened with a not-a-number as its balance.\<close>

definition example_nan :: db where
  "example_nan =
     empty_db\<lparr>users := [ann],
       accounts := [new_Account 10 1 ''A'' CHECKING (Some NaN) None None]\<rparr>"

section \<open>Properties\<close>

subsection \<open>The cascade through subcategories\<close>

lemma subtree_unfold:
  "subtree cs D =
     (if filter (\<lambda>c. c_id c \<notin> set D \<and> points_into (parent_category_id c) D) cs = [] then D
      else subtree cs (D @ map c_id
             (filter (\<lambda>c. c_id c \<notin> set D \<and> points_into (parent_category_id c) D) cs)))"
  by (subst subtree.simps) (simp add: Let_def)

lemma subtree_incl: "set D \<subseteq> set (subtree cs D)"
proof (induction cs D rule: subtree.induct)
  case (1 cs D)
  let ?new = "filter (\<lambda>c. c_id c \<notin> set D \<and> points_into (parent_category_id c) D) cs"
  show ?case
  proof (cases "?new = []")
    case True
    then show ?thesis by (subst subtree_unfold) simp
  next
    case False
    from "1.IH" [OF refl False]
    have "set (D @ map c_id ?new) \<subseteq> set (subtree cs (D @ map c_id ?new))" .
    with False show ?thesis by (subst subtree_unfold) auto
  qed
qed

lemma subtree_closed:
  "c \<in> set cs \<Longrightarrow> points_into (parent_category_id c) (subtree cs D)
   \<Longrightarrow> c_id c \<in> set (subtree cs D)"
proof (induction cs D rule: subtree.induct)
  case (1 cs D)
  let ?new = "filter (\<lambda>c. c_id c \<notin> set D \<and> points_into (parent_category_id c) D) cs"
  show ?case
  proof (cases "?new = []")
    case True
    then have eq: "subtree cs D = D" by (subst subtree_unfold) simp
    from True have "\<forall>k\<in>set cs. \<not> (c_id k \<notin> set D \<and> points_into (parent_category_id k) D)"
      by (simp add: filter_empty_conv)
    with "1.prems" eq show ?thesis by auto
  next
    case False
    then have eq: "subtree cs D = subtree cs (D @ map c_id ?new)"
      by (subst subtree_unfold) simp
    from "1.IH" [OF refl False "1.prems"(1)] "1.prems"(2) show ?thesis
      unfolding eq by simp
  qed
qed

subsection \<open>Creating an account\<close>



subsection \<open>Evaluating the examples\<close>

lemma example_run: "run round_down example_session empty_db = Inr example_db"
  by code_simp



lemma example_delete_leg:
  "exec round_down (DeleteTransaction 20) example_db = Inr example_without_leg_a"
  by code_simp

lemma example_delete_account:
  "exec round_down (DeleteAccount 10) example_db = Inr example_without_account_a"
  by code_simp

subsection \<open>Deleting rows\<close>

lemma delete_transaction_rows_sel:
  "users (delete_transaction_rows D s) = users s"
  "accounts (delete_transaction_rows D s) = accounts s"
  "categories (delete_transaction_rows D s) = categories s"
  "budgets (delete_transaction_rows D s) = budgets s"
  "transactions (delete_transaction_rows D s) =
     map (\<lambda>t. if points_into (linked_transaction_id t) D
              then t\<lparr>linked_transaction_id := None\<rparr> else t)
         (filter (\<lambda>t. t_id t \<notin> set D) (transactions s))"
  by (simp_all add: delete_transaction_rows_def)

lemma delete_account_rows_sel:
  "users (delete_account_rows A s) = users s"
  "accounts (delete_account_rows A s) = filter (\<lambda>a. a_id a \<notin> set A) (accounts s)"
  "categories (delete_account_rows A s) = categories s"
  "budgets (delete_account_rows A s) = budgets s"
  "transactions (delete_account_rows A s) =
     map (\<lambda>t. if points_into (linked_transaction_id t)
                   (map t_id (filter (\<lambda>t. account_id t \<in> set A) (transactions s)))
              then t\<lparr>linked_transaction_id := None\<rparr> else t)
         (filter (\<lambda>t. t_id t \<notin> t_id ` {t \<in> set (transactions s). account_id t \<in> set A})
            (transactions s))"
  by (simp_all add: delete_account_rows_def delete_transaction_rows_sel)

lemma delete_category_rows_sel:
  "users (delete_category_rows C s) = users s"
  "accounts (delete_category_rows C s) = accounts s"
  "categories (delete_category_rows C s) =
     filter (\<lambda>c. c_id c \<notin> set (subtree (categories s) C)) (categories s)"
  "budgets (delete_category_rows C s) =
     filter (\<lambda>b. b_category_id b \<notin> set (subtree (categories s) C)) (budgets s)"
  "transactions (delete_category_rows C s) =
     map (\<lambda>t. if points_into (category_id t) (subtree (categories s) C)
              then t\<lparr>category_id := None\<rparr> else t) (transactions s)"
  by (simp_all add: delete_category_rows_def Let_def)










text \<open>
  C2, amended. Removing one leg of a linked pair removes that leg only: the journal
  afterwards is the journal before without the removed row, every other transaction,
  the counterpart included, unchanged except that a link to the removed leg is cleared
  (a link to any other row is kept); and every account, so every balance, is exactly
  what it was before the removal, as are the users, categories and budgets.
\<close>

theorem delete_leg_keeps_counterpart_and_balances:
  "exec bk (DeleteTransaction i) s = Inr s' \<Longrightarrow>
     transactions s' =
       map (\<lambda>t. if linked_transaction_id t = Some i
                then t\<lparr>linked_transaction_id := None\<rparr> else t)
           (filter (\<lambda>t. t_id t \<noteq> i) (transactions s))
     \<and> accounts s' = accounts s \<and> users s' = users s
     \<and> categories s' = categories s \<and> budgets s' = budgets s"
proof -
  assume "exec bk (DeleteTransaction i) s = Inr s'"
  then have "s' = delete_transaction_rows [i] s"
    by (simp split: if_splits)
  moreover have "points_into r [i] = (r = Some i)" for r
    by (cases r) (auto simp: points_into_def)
  ultimately show ?thesis
    by (simp add: delete_transaction_rows_sel)
qed

theorem delete_leg_keeps_counterpart_and_balances_witness:
  "exec round_down (DeleteTransaction 20) example_db = Inr example_without_leg_a
   \<and> transactions example_without_leg_a =
       map (\<lambda>t. if linked_transaction_id t = Some 20
                then t\<lparr>linked_transaction_id := None\<rparr> else t)
           (filter (\<lambda>t. t_id t \<noteq> 20) (transactions example_db))
   \<and> accounts example_without_leg_a = accounts example_db
   \<and> users example_without_leg_a = users example_db
   \<and> categories example_without_leg_a = categories example_db
   \<and> budgets example_without_leg_a = budgets example_db"
  using example_delete_leg delete_leg_keeps_counterpart_and_balances [OF example_delete_leg]
  by (rule conjI)

text \<open>
  C2 as stated fails on the specification's own scenario: after the leg on account A
  (row 20) is removed, the leg on B (row 21) is still in the journal and the balances
  of A and B are still -50.00 and 50.00.
\<close>

theorem delete_leg_counterexample:
  "run round_down (example_session @ [DeleteTransaction 20]) empty_db = Inr example_without_leg_a
   \<and> 21 \<in> transaction_ids example_without_leg_a
   \<and> map (\<lambda>a. (a_id a, balance a)) (accounts example_without_leg_a)
       = [(10, Finite (- 5000) (- 2)),
          (11, Finite 5000 (- 2)),
          (12, Finite 0 (- 2))]"
  by code_simp

subsection \<open>Invariants of every session\<close>

lemma map_key_replace_row: "map key (replace_row key r xs) = map key xs"
  by (induction xs) (simp_all add: replace_row_def)

lemma key_image_replace_row: "key ` set (replace_row key r xs) = key ` set xs"
  using map_key_replace_row [of key r xs] by (metis set_map)

lemma set_replace_row: "set (replace_row key r xs) \<subseteq> insert r (set xs)"
  by (auto simp: replace_row_def)

lemma t_id_unlink:
  "t_id \<circ> (\<lambda>t. if c t then t\<lparr>linked_transaction_id := None\<rparr> else t) = t_id"
  by (rule ext) simp

lemma t_id_uncategorise:
  "t_id \<circ> (\<lambda>t. if c t then t\<lparr>category_id := None\<rparr> else t) = t_id"
  by (rule ext) simp

lemma run_preserves:
  assumes step: "\<And>x s s'. exec bk x s = Inr s' \<Longrightarrow> P s \<Longrightarrow> P s'"
  shows "run bk xs s = Inr s' \<Longrightarrow> P s \<Longrightarrow> P s'"
proof (induction xs arbitrary: s)
  case Nil
  then show ?case by simp
next
  case (Cons x xs)
  from Cons.prems(1) obtain s1 where x: "exec bk x s = Inr s1" and xs: "run bk xs s1 = Inr s'"
    by (auto split: sum.splits)
  from step [OF x Cons.prems(2)] have "P s1" .
  from Cons.IH [OF xs this] show ?case .
qed

subsection \<open>Primary keys\<close>

lemma pk_delete_transaction_rows: "pk_ok s \<Longrightarrow> pk_ok (delete_transaction_rows D s)"
  by (simp add: pk_ok_def delete_transaction_rows_sel t_id_unlink distinct_map_filter)

lemma pk_delete_account_rows: "pk_ok s \<Longrightarrow> pk_ok (delete_account_rows A s)"
  unfolding delete_account_rows_def
  by (rule pk_delete_transaction_rows) (simp add: pk_ok_def distinct_map_filter)

lemma pk_delete_category_rows: "pk_ok s \<Longrightarrow> pk_ok (delete_category_rows C s)"
  by (simp add: pk_ok_def delete_category_rows_sel t_id_uncategorise distinct_map_filter)

lemma pk_delete_user_row: "pk_ok s \<Longrightarrow> pk_ok (delete_user_row u s)"
proof -
  assume "pk_ok s"
  then have "pk_ok (delete_category_rows
       (map c_id (filter (\<lambda>c. c_user_id c = Some u)
          (categories (delete_account_rows (map a_id (filter (\<lambda>a. a_user_id a = u) (accounts s))) s))))
       (delete_account_rows (map a_id (filter (\<lambda>a. a_user_id a = u) (accounts s))) s))"
    by (intro pk_delete_category_rows pk_delete_account_rows)
  then show ?thesis
    by (simp add: delete_user_row_def Let_def pk_ok_def distinct_map_filter)
qed

lemma exec_pk_ok: "exec bk x s = Inr s' \<Longrightarrow> pk_ok s \<Longrightarrow> pk_ok s'"
proof (cases x)
  case (InsertUser u)
  then show "exec bk x s = Inr s' \<Longrightarrow> pk_ok s \<Longrightarrow> pk_ok s'"
    by (auto simp: insert_user_def pk_ok_def user_ids_def split: if_splits)
next
  case (UpdateUser u)
  then show "exec bk x s = Inr s' \<Longrightarrow> pk_ok s \<Longrightarrow> pk_ok s'"
    by (auto simp: update_user_def pk_ok_def map_key_replace_row split: if_splits)
next
  case (DeleteUser i)
  then show "exec bk x s = Inr s' \<Longrightarrow> pk_ok s \<Longrightarrow> pk_ok s'"
    by (auto simp: pk_delete_user_row split: if_splits)
next
  case (InsertAccount a)
  then show "exec bk x s = Inr s' \<Longrightarrow> pk_ok s \<Longrightarrow> pk_ok s'"
    by (auto simp: insert_account_def pk_ok_def account_ids_def split: if_splits sum.splits)
next
  case (UpdateAccount a)
  then show "exec bk x s = Inr s' \<Longrightarrow> pk_ok s \<Longrightarrow> pk_ok s'"
    by (auto simp: update_account_def pk_ok_def map_key_replace_row split: if_splits sum.splits)
next
  case (DeleteAccount i)
  then show "exec bk x s = Inr s' \<Longrightarrow> pk_ok s \<Longrightarrow> pk_ok s'"
    by (auto simp: pk_delete_account_rows split: if_splits)
next
  case (InsertCategory c)
  then show "exec bk x s = Inr s' \<Longrightarrow> pk_ok s \<Longrightarrow> pk_ok s'"
    by (auto simp: insert_category_def pk_ok_def category_ids_def split: if_splits)
next
  case (UpdateCategory c)
  then show "exec bk x s = Inr s' \<Longrightarrow> pk_ok s \<Longrightarrow> pk_ok s'"
    by (auto simp: update_category_def pk_ok_def map_key_replace_row split: if_splits)
next
  case (DeleteCategory i)
  then show "exec bk x s = Inr s' \<Longrightarrow> pk_ok s \<Longrightarrow> pk_ok s'"
    by (auto simp: pk_delete_category_rows split: if_splits)
next
  case (InsertTransaction t)
  then show "exec bk x s = Inr s' \<Longrightarrow> pk_ok s \<Longrightarrow> pk_ok s'"
    by (auto simp: insert_transaction_def pk_ok_def transaction_ids_def split: if_splits sum.splits)
next
  case (UpdateTransaction t)
  then show "exec bk x s = Inr s' \<Longrightarrow> pk_ok s \<Longrightarrow> pk_ok s'"
    by (auto simp: update_transaction_def pk_ok_def map_key_replace_row split: if_splits sum.splits)
next
  case (DeleteTransaction i)
  then show "exec bk x s = Inr s' \<Longrightarrow> pk_ok s \<Longrightarrow> pk_ok s'"
    by (auto simp: pk_delete_transaction_rows split: if_splits)
next
  case (InsertBudget b)
  then show "exec bk x s = Inr s' \<Longrightarrow> pk_ok s \<Longrightarrow> pk_ok s'"
    by (auto simp: insert_budget_def pk_ok_def budget_ids_def split: if_splits sum.splits)
next
  case (UpdateBudget b)
  then show "exec bk x s = Inr s' \<Longrightarrow> pk_ok s \<Longrightarrow> pk_ok s'"
    by (auto simp: update_budget_def pk_ok_def map_key_replace_row split: if_splits sum.splits)
next
  case (DeleteBudget i)
  then show "exec bk x s = Inr s' \<Longrightarrow> pk_ok s \<Longrightarrow> pk_ok s'"
    by (auto simp: pk_ok_def distinct_map_filter split: if_splits)
qed

subsection \<open>What an accepted write has checked\<close>

lemma insert_account_Inr:
  assumes "insert_account bk a s = Inr s'"
  obtains m where "numeric bk 15 2 (balance a) = Inr m" "a_id a \<notin> account_ids s"
    "a_user_id a \<in> user_ids s" "s' = s\<lparr>accounts := accounts s @ [a\<lparr>balance := m\<rparr>]\<rparr>"
  using assms by (auto simp: insert_account_def split: sum.splits if_splits)

lemma update_account_Inr:
  assumes "update_account bk a s = Inr s'"
  obtains m where "numeric bk 15 2 (balance a) = Inr m" "a_id a \<in> account_ids s"
    "a_user_id a \<in> user_ids s"
    "s' = s\<lparr>accounts := replace_row a_id (a\<lparr>balance := m\<rparr>) (accounts s)\<rparr>"
  using assms by (auto simp: update_account_def split: sum.splits if_splits)

lemma insert_transaction_Inr:
  assumes "insert_transaction bk t s = Inr s'"
  obtains m where "numeric bk 15 2 (amount t) = Inr m" "t_id t \<notin> transaction_ids s"
    "account_id t \<in> account_ids s" "refers (category_id t) (category_ids s)"
    "refers (linked_transaction_id t) (insert (t_id t) (transaction_ids s))"
    "s' = s\<lparr>transactions := transactions s @ [t\<lparr>amount := m\<rparr>]\<rparr>"
  using assms by (auto simp: insert_transaction_def split: sum.splits if_splits)

lemma update_transaction_Inr:
  assumes "update_transaction bk t s = Inr s'"
  obtains m where "numeric bk 15 2 (amount t) = Inr m" "t_id t \<in> transaction_ids s"
    "account_id t \<in> account_ids s" "refers (category_id t) (category_ids s)"
    "refers (linked_transaction_id t) (transaction_ids s)"
    "s' = s\<lparr>transactions := replace_row t_id (t\<lparr>amount := m\<rparr>) (transactions s)\<rparr>"
  using assms by (auto simp: update_transaction_def split: sum.splits if_splits)

lemma insert_budget_Inr:
  assumes "insert_budget bk b s = Inr s'"
  obtains m where "numeric bk 15 2 (b_amount b) = Inr m" "b_id b \<notin> budget_ids s"
    "b_user_id b \<in> user_ids s" "b_category_id b \<in> category_ids s"
    "s' = s\<lparr>budgets := budgets s @ [b\<lparr>b_amount := m\<rparr>]\<rparr>"
  using assms by (auto simp: insert_budget_def split: sum.splits if_splits)

lemma update_budget_Inr:
  assumes "update_budget bk b s = Inr s'"
  obtains m where "numeric bk 15 2 (b_amount b) = Inr m" "b_id b \<in> budget_ids s"
    "b_user_id b \<in> user_ids s" "b_category_id b \<in> category_ids s"
    "s' = s\<lparr>budgets := replace_row b_id (b\<lparr>b_amount := m\<rparr>) (budgets s)\<rparr>"
  using assms by (auto simp: update_budget_def split: sum.splits if_splits)

lemma insert_user_Inr:
  assumes "insert_user u s = Inr s'"
  obtains "u_id u \<notin> user_ids s" "email u \<notin> email ` set (users s)"
    "s' = s\<lparr>users := users s @ [u]\<rparr>"
  using assms by (auto simp: insert_user_def split: if_splits)

lemma update_user_Inr:
  assumes "update_user u s = Inr s'"
  obtains "u_id u \<in> user_ids s" "s' = s\<lparr>users := replace_row u_id u (users s)\<rparr>"
  using assms by (auto simp: update_user_def split: if_splits)

lemma insert_category_Inr:
  assumes "insert_category c s = Inr s'"
  obtains "c_id c \<notin> category_ids s" "refers (c_user_id c) (user_ids s)"
    "refers (parent_category_id c) (insert (c_id c) (category_ids s))"
    "s' = s\<lparr>categories := categories s @ [c]\<rparr>"
  using assms by (auto simp: insert_category_def split: if_splits)

lemma update_category_Inr:
  assumes "update_category c s = Inr s'"
  obtains "c_id c \<in> category_ids s" "refers (c_user_id c) (user_ids s)"
    "refers (parent_category_id c) (category_ids s)"
    "s' = s\<lparr>categories := replace_row c_id c (categories s)\<rparr>"
  using assms by (auto simp: update_category_def split: if_splits)

subsection \<open>Stored amounts\<close>

lemma numeric_fixed: "numeric bk 15 2 d = Inr m \<Longrightarrow> stored_15_2 m"
  by (auto simp: numeric_def stored_15_2_def fixed_15_2_def Let_def
      split: if_splits Decimal.splits)

lemma in_replace_row: "x \<in> set (replace_row key r xs) \<Longrightarrow> x = r \<or> x \<in> set xs"
  by (auto simp: replace_row_def split: if_splits)

lemma money_delete_transaction_rows: "money_stored s \<Longrightarrow> money_stored (delete_transaction_rows D s)"
  by (auto simp: money_stored_def delete_transaction_rows_sel)

lemma money_delete_account_rows: "money_stored s \<Longrightarrow> money_stored (delete_account_rows A s)"
  unfolding delete_account_rows_def
  by (rule money_delete_transaction_rows) (simp add: money_stored_def)

lemma money_delete_category_rows: "money_stored s \<Longrightarrow> money_stored (delete_category_rows C s)"
  by (auto simp: money_stored_def delete_category_rows_sel)

lemma money_delete_user_row: "money_stored s \<Longrightarrow> money_stored (delete_user_row u s)"
proof -
  assume "money_stored s"
  then have "money_stored (delete_category_rows
       (map c_id (filter (\<lambda>c. c_user_id c = Some u)
          (categories (delete_account_rows (map a_id (filter (\<lambda>a. a_user_id a = u) (accounts s))) s))))
       (delete_account_rows (map a_id (filter (\<lambda>a. a_user_id a = u) (accounts s))) s))"
    by (intro money_delete_category_rows money_delete_account_rows)
  then show ?thesis
    by (simp add: delete_user_row_def Let_def money_stored_def)
qed

lemma money_insert_account: "insert_account bk a s = Inr s' \<Longrightarrow> money_stored s \<Longrightarrow> money_stored s'"
proof (erule insert_account_Inr)
  fix m assume m: "numeric bk 15 2 (balance a) = Inr m"
    and s': "s' = s\<lparr>accounts := accounts s @ [a\<lparr>balance := m\<rparr>]\<rparr>" and ok: "money_stored s"
  from numeric_fixed [OF m] ok show "money_stored s'"
    by (auto simp: money_stored_def s')
qed

lemma money_update_account: "update_account bk a s = Inr s' \<Longrightarrow> money_stored s \<Longrightarrow> money_stored s'"
proof (erule update_account_Inr)
  fix m assume m: "numeric bk 15 2 (balance a) = Inr m"
    and s': "s' = s\<lparr>accounts := replace_row a_id (a\<lparr>balance := m\<rparr>) (accounts s)\<rparr>"
    and ok: "money_stored s"
  from numeric_fixed [OF m] ok show "money_stored s'"
    by (auto simp: money_stored_def s' dest!: in_replace_row)
qed

lemma money_insert_transaction:
  "insert_transaction bk t s = Inr s' \<Longrightarrow> money_stored s \<Longrightarrow> money_stored s'"
proof (erule insert_transaction_Inr)
  fix m assume m: "numeric bk 15 2 (amount t) = Inr m"
    and s': "s' = s\<lparr>transactions := transactions s @ [t\<lparr>amount := m\<rparr>]\<rparr>" and ok: "money_stored s"
  from numeric_fixed [OF m] ok show "money_stored s'"
    by (auto simp: money_stored_def s')
qed

lemma money_update_transaction:
  "update_transaction bk t s = Inr s' \<Longrightarrow> money_stored s \<Longrightarrow> money_stored s'"
proof (erule update_transaction_Inr)
  fix m assume m: "numeric bk 15 2 (amount t) = Inr m"
    and s': "s' = s\<lparr>transactions := replace_row t_id (t\<lparr>amount := m\<rparr>) (transactions s)\<rparr>"
    and ok: "money_stored s"
  from numeric_fixed [OF m] ok show "money_stored s'"
    by (auto simp: money_stored_def s' dest!: in_replace_row)
qed

lemma money_insert_budget: "insert_budget bk b s = Inr s' \<Longrightarrow> money_stored s \<Longrightarrow> money_stored s'"
proof (erule insert_budget_Inr)
  fix m assume m: "numeric bk 15 2 (b_amount b) = Inr m"
    and s': "s' = s\<lparr>budgets := budgets s @ [b\<lparr>b_amount := m\<rparr>]\<rparr>" and ok: "money_stored s"
  from numeric_fixed [OF m] ok show "money_stored s'"
    by (auto simp: money_stored_def s')
qed

lemma money_update_budget: "update_budget bk b s = Inr s' \<Longrightarrow> money_stored s \<Longrightarrow> money_stored s'"
proof (erule update_budget_Inr)
  fix m assume m: "numeric bk 15 2 (b_amount b) = Inr m"
    and s': "s' = s\<lparr>budgets := replace_row b_id (b\<lparr>b_amount := m\<rparr>) (budgets s)\<rparr>"
    and ok: "money_stored s"
  from numeric_fixed [OF m] ok show "money_stored s'"
    by (auto simp: money_stored_def s' dest!: in_replace_row)
qed

lemma exec_money_stored: "exec bk x s = Inr s' \<Longrightarrow> money_stored s \<Longrightarrow> money_stored s'"
proof (cases x)
  case (InsertUser u)
  then show "exec bk x s = Inr s' \<Longrightarrow> money_stored s \<Longrightarrow> money_stored s'"
    by (auto simp: money_stored_def elim!: insert_user_Inr)
next
  case (UpdateUser u)
  then show "exec bk x s = Inr s' \<Longrightarrow> money_stored s \<Longrightarrow> money_stored s'"
    by (auto simp: money_stored_def elim!: update_user_Inr)
next
  case (DeleteUser i)
  then show "exec bk x s = Inr s' \<Longrightarrow> money_stored s \<Longrightarrow> money_stored s'"
    by (auto simp: money_delete_user_row split: if_splits)
next
  case (InsertAccount a)
  then show "exec bk x s = Inr s' \<Longrightarrow> money_stored s \<Longrightarrow> money_stored s'"
    by (simp add: money_insert_account)
next
  case (UpdateAccount a)
  then show "exec bk x s = Inr s' \<Longrightarrow> money_stored s \<Longrightarrow> money_stored s'"
    by (simp add: money_update_account)
next
  case (DeleteAccount i)
  then show "exec bk x s = Inr s' \<Longrightarrow> money_stored s \<Longrightarrow> money_stored s'"
    by (auto simp: money_delete_account_rows split: if_splits)
next
  case (InsertCategory c)
  then show "exec bk x s = Inr s' \<Longrightarrow> money_stored s \<Longrightarrow> money_stored s'"
    by (auto simp: money_stored_def elim!: insert_category_Inr)
next
  case (UpdateCategory c)
  then show "exec bk x s = Inr s' \<Longrightarrow> money_stored s \<Longrightarrow> money_stored s'"
    by (auto simp: money_stored_def elim!: update_category_Inr)
next
  case (DeleteCategory i)
  then show "exec bk x s = Inr s' \<Longrightarrow> money_stored s \<Longrightarrow> money_stored s'"
    by (auto simp: money_delete_category_rows split: if_splits)
next
  case (InsertTransaction t)
  then show "exec bk x s = Inr s' \<Longrightarrow> money_stored s \<Longrightarrow> money_stored s'"
    by (simp add: money_insert_transaction)
next
  case (UpdateTransaction t)
  then show "exec bk x s = Inr s' \<Longrightarrow> money_stored s \<Longrightarrow> money_stored s'"
    by (simp add: money_update_transaction)
next
  case (DeleteTransaction i)
  then show "exec bk x s = Inr s' \<Longrightarrow> money_stored s \<Longrightarrow> money_stored s'"
    by (auto simp: money_delete_transaction_rows split: if_splits)
next
  case (InsertBudget b)
  then show "exec bk x s = Inr s' \<Longrightarrow> money_stored s \<Longrightarrow> money_stored s'"
    by (simp add: money_insert_budget)
next
  case (UpdateBudget b)
  then show "exec bk x s = Inr s' \<Longrightarrow> money_stored s \<Longrightarrow> money_stored s'"
    by (simp add: money_update_budget)
next
  case (DeleteBudget i)
  then show "exec bk x s = Inr s' \<Longrightarrow> money_stored s \<Longrightarrow> money_stored s'"
    by (auto simp: money_stored_def split: if_splits)
qed

subsection \<open>Foreign keys\<close>

lemma refers_mono: "refers r A \<Longrightarrow> A \<subseteq> B \<Longrightarrow> refers r B"
  by (auto simp: refers_def split: option.splits)

lemma refers_None: "refers None A"
  by (simp add: refers_def)

lemma refers_Some: "refers (Some i) A = (i \<in> A)"
  by (simp add: refers_def)

lemma refers_insert: "refers r A \<Longrightarrow> refers r (insert i A)"
  by (rule refers_mono) auto

lemma refers_minus: "refers r A \<Longrightarrow> r \<noteq> Some u \<Longrightarrow> refers r (A - {u})"
  by (cases r) (auto simp: refers_def)

lemma transaction_ids_delete_transaction_rows:
  "transaction_ids (delete_transaction_rows D s) = transaction_ids s - set D"
proof -
  have "map t_id (transactions (delete_transaction_rows D s))
      = map t_id (filter (\<lambda>t. t_id t \<notin> set D) (transactions s))"
    by (simp only: delete_transaction_rows_sel map_map t_id_unlink)
  then have "set (map t_id (transactions (delete_transaction_rows D s)))
      = set (map t_id (filter (\<lambda>t. t_id t \<notin> set D) (transactions s)))"
    by (rule arg_cong)
  then show ?thesis
    by (auto simp: transaction_ids_def)
qed

lemma fk_delete_transaction_rows: "fk_ok s \<Longrightarrow> fk_ok (delete_transaction_rows D s)"
proof -
  assume ok: "fk_ok s"
  let ?s' = "delete_transaction_rows D s"
  note ids = transaction_ids_delete_transaction_rows [of D s]
  have other: "user_ids ?s' = user_ids s" "account_ids ?s' = account_ids s"
    "category_ids ?s' = category_ids s"
    by (simp_all add: user_ids_def account_ids_def category_ids_def delete_transaction_rows_sel)
  have tr: "account_id t' \<in> account_ids s \<and> refers (category_id t') (category_ids s)
      \<and> refers (linked_transaction_id t') (transaction_ids s - set D)"
    if "t' \<in> set (transactions ?s')" for t'
  proof -
    from that obtain t where t: "t \<in> set (transactions s)" "t_id t \<notin> set D"
      and t': "t' = (if points_into (linked_transaction_id t) D
                     then t\<lparr>linked_transaction_id := None\<rparr> else t)"
      by (auto simp: delete_transaction_rows_sel)
    from ok t(1) have r: "account_id t \<in> account_ids s" "refers (category_id t) (category_ids s)"
      "refers (linked_transaction_id t) (transaction_ids s)"
      by (simp_all add: fk_ok_def)
    show ?thesis
    proof (cases "points_into (linked_transaction_id t) D")
      case True
      with r t' show ?thesis by (simp add: refers_None)
    next
      case False
      with r t' show ?thesis
        by (auto simp: refers_def points_into_def split: option.splits)
    qed
  qed
  from ok tr show ?thesis
    unfolding fk_ok_def ids other
    by (simp add: delete_transaction_rows_sel(1,2,3,4))
qed

lemma fk_delete_account_rows: "fk_ok s \<Longrightarrow> fk_ok (delete_account_rows A s)"
proof -
  assume ok: "fk_ok s"
  let ?D = "map t_id (filter (\<lambda>t. account_id t \<in> set A) (transactions s))"
  let ?s' = "delete_account_rows A s"
  have ids: "transaction_ids ?s' = transaction_ids s - set ?D"
    unfolding delete_account_rows_def transaction_ids_delete_transaction_rows
    by (simp add: transaction_ids_def)
  have aids: "account_ids ?s' = account_ids s - set A"
    by (auto simp: account_ids_def delete_account_rows_sel)
  have other: "user_ids ?s' = user_ids s" "category_ids ?s' = category_ids s"
    by (simp_all add: user_ids_def category_ids_def delete_account_rows_sel)
  have tr: "account_id t' \<in> account_ids s - set A \<and> refers (category_id t') (category_ids s)
      \<and> refers (linked_transaction_id t') (transaction_ids s - set ?D)"
    if "t' \<in> set (transactions ?s')" for t'
  proof -
    from that obtain t where t: "t \<in> set (transactions s)" "t_id t \<notin> set ?D"
      and t': "t' = (if points_into (linked_transaction_id t) ?D
                     then t\<lparr>linked_transaction_id := None\<rparr> else t)"
      unfolding delete_account_rows_def by (auto simp: delete_transaction_rows_sel)
    from ok t(1) have r: "account_id t \<in> account_ids s" "refers (category_id t) (category_ids s)"
      "refers (linked_transaction_id t) (transaction_ids s)"
      by (simp_all add: fk_ok_def)
    from t have nA: "account_id t \<notin> set A"
      by auto
    show ?thesis
    proof (cases "points_into (linked_transaction_id t) ?D")
      case True
      with r nA t' show ?thesis by (simp add: refers_None)
    next
      case False
      with r nA t' show ?thesis
        by (auto simp: refers_def points_into_def split: option.splits)
    qed
  qed
  from ok have acc: "\<forall>a\<in>set (accounts ?s'). a_user_id a \<in> user_ids s"
    by (simp add: fk_ok_def delete_account_rows_sel)
  from ok acc tr show ?thesis
    unfolding fk_ok_def ids aids other
    by (simp add: delete_account_rows_sel(1,3,4))
qed

lemma fk_delete_category_rows: "fk_ok s \<Longrightarrow> fk_ok (delete_category_rows C s)"
proof -
  assume ok: "fk_ok s"
  let ?D = "subtree (categories s) C"
  let ?s' = "delete_category_rows C s"
  have cids: "category_ids ?s' = category_ids s - set ?D"
    by (auto simp: category_ids_def delete_category_rows_sel)
  have "map t_id (transactions ?s') = map t_id (transactions s)"
    by (simp only: delete_category_rows_sel map_map t_id_uncategorise)
  then have "set (map t_id (transactions ?s')) = set (map t_id (transactions s))"
    by (rule arg_cong)
  then have tids: "transaction_ids ?s' = transaction_ids s"
    by (simp add: transaction_ids_def)
  have other: "user_ids ?s' = user_ids s" "account_ids ?s' = account_ids s"
    by (simp_all add: user_ids_def account_ids_def delete_category_rows_sel)
  have cat: "refers (c_user_id c) (user_ids s)
      \<and> refers (parent_category_id c) (category_ids s - set ?D)"
    if "c \<in> set (categories ?s')" for c
  proof -
    from that have c: "c \<in> set (categories s)" "c_id c \<notin> set ?D"
      by (simp_all add: delete_category_rows_sel)
    from ok c(1) have r: "refers (c_user_id c) (user_ids s)"
      "refers (parent_category_id c) (category_ids s)"
      by (simp_all add: fk_ok_def)
    from c subtree_closed [of c "categories s" C]
    have "\<not> points_into (parent_category_id c) ?D"
      by blast
    with r show ?thesis
      by (auto simp: refers_def points_into_def split: option.splits)
  qed
  have tr: "account_id t' \<in> account_ids s \<and> refers (category_id t') (category_ids s - set ?D)
      \<and> refers (linked_transaction_id t') (transaction_ids s)"
    if "t' \<in> set (transactions ?s')" for t'
  proof -
    from that obtain t where t: "t \<in> set (transactions s)"
      and t': "t' = (if points_into (category_id t) ?D then t\<lparr>category_id := None\<rparr> else t)"
      by (auto simp: delete_category_rows_sel)
    from ok t(1) have r: "account_id t \<in> account_ids s" "refers (category_id t) (category_ids s)"
      "refers (linked_transaction_id t) (transaction_ids s)"
      by (simp_all add: fk_ok_def)
    show ?thesis
    proof (cases "points_into (category_id t) ?D")
      case True
      with r t' show ?thesis by (simp add: refers_None)
    next
      case False
      with r t' show ?thesis
        by (auto simp: refers_def points_into_def split: option.splits)
    qed
  qed
  from ok have acc: "\<forall>a\<in>set (accounts ?s'). a_user_id a \<in> user_ids s"
    by (simp add: fk_ok_def delete_category_rows_sel)
  from ok have bud: "\<forall>b\<in>set (budgets ?s'). b_user_id b \<in> user_ids s
      \<and> b_category_id b \<in> category_ids s - set ?D"
    by (simp add: fk_ok_def delete_category_rows_sel)
  from acc cat tr bud show ?thesis
    unfolding fk_ok_def cids tids other
    by simp
qed

lemma fk_delete_user_row: "fk_ok s \<Longrightarrow> fk_ok (delete_user_row u s)"
proof -
  assume ok: "fk_ok s"
  define A where "A = map a_id (filter (\<lambda>a. a_user_id a = u) (accounts s))"
  define s1 where "s1 = delete_account_rows A s"
  define C where "C = map c_id (filter (\<lambda>c. c_user_id c = Some u) (categories s1))"
  define s2 where "s2 = delete_category_rows C s1"
  let ?s' = "delete_user_row u s"
  have ok2: "fk_ok s2"
    unfolding s2_def s1_def by (intro fk_delete_category_rows fk_delete_account_rows ok)
  have tabs: "users ?s' = filter (\<lambda>v. u_id v \<noteq> u) (users s2)" "accounts ?s' = accounts s2"
    "categories ?s' = categories s2" "transactions ?s' = transactions s2"
    "budgets ?s' = filter (\<lambda>b. b_user_id b \<noteq> u) (budgets s2)"
    by (simp_all add: delete_user_row_def Let_def s2_def C_def s1_def A_def)
  have uids: "user_ids ?s' = user_ids s2 - {u}"
    by (auto simp: user_ids_def tabs)
  have other: "account_ids ?s' = account_ids s2" "category_ids ?s' = category_ids s2"
    "transaction_ids ?s' = transaction_ids s2"
    by (simp_all add: account_ids_def category_ids_def transaction_ids_def tabs)
  have acc: "a_user_id a \<noteq> u" if "a \<in> set (accounts s2)" for a
  proof
    assume "a_user_id a = u"
    moreover from that have "a \<in> set (accounts s)" "a_id a \<notin> set A"
      by (simp_all add: s2_def s1_def delete_category_rows_sel delete_account_rows_sel)
    ultimately show False
      by (auto simp: A_def)
  qed
  have cat: "c_user_id c \<noteq> Some u" if "c \<in> set (categories s2)" for c
  proof
    assume "c_user_id c = Some u"
    moreover from that have c: "c \<in> set (categories s1)" "c_id c \<notin> set (subtree (categories s1) C)"
      by (simp_all add: s2_def delete_category_rows_sel)
    ultimately have "c_id c \<in> set C"
      by (auto simp: C_def)
    with subtree_incl [of C "categories s1"] c(2) show False
      by blast
  qed
  from ok2 acc have 1: "\<forall>a\<in>set (accounts s2). a_user_id a \<in> user_ids s2 - {u}"
    by (auto simp: fk_ok_def)
  have 2: "\<forall>c\<in>set (categories s2). refers (c_user_id c) (user_ids s2 - {u})
      \<and> refers (parent_category_id c) (category_ids s2)"
  proof
    fix c assume c: "c \<in> set (categories s2)"
    with ok2 have r: "refers (c_user_id c) (user_ids s2)"
      "refers (parent_category_id c) (category_ids s2)"
      by (simp_all add: fk_ok_def)
    from refers_minus [OF r(1) cat [OF c]] r(2)
    show "refers (c_user_id c) (user_ids s2 - {u})
      \<and> refers (parent_category_id c) (category_ids s2)" ..
  qed
  from ok2 have 3: "\<forall>t\<in>set (transactions s2). account_id t \<in> account_ids s2
      \<and> refers (category_id t) (category_ids s2)
      \<and> refers (linked_transaction_id t) (transaction_ids s2)"
    by (simp add: fk_ok_def)
  from ok2 have 4: "\<forall>b\<in>set (filter (\<lambda>b. b_user_id b \<noteq> u) (budgets s2)).
      b_user_id b \<in> user_ids s2 - {u} \<and> b_category_id b \<in> category_ids s2"
    by (auto simp: fk_ok_def)
  from 1 2 3 4 show ?thesis
    unfolding fk_ok_def uids other tabs by blast
qed

lemma fk_insert_user: "insert_user u s = Inr s' \<Longrightarrow> fk_ok s \<Longrightarrow> fk_ok s'"
  by (erule insert_user_Inr)
    (auto simp: fk_ok_def user_ids_def account_ids_def category_ids_def transaction_ids_def
      intro: refers_insert)

lemma fk_update_user: "update_user u s = Inr s' \<Longrightarrow> fk_ok s \<Longrightarrow> fk_ok s'"
  by (erule update_user_Inr)
    (simp add: fk_ok_def user_ids_def account_ids_def category_ids_def transaction_ids_def
      key_image_replace_row)

lemma fk_insert_account: "insert_account bk a s = Inr s' \<Longrightarrow> fk_ok s \<Longrightarrow> fk_ok s'"
  by (erule insert_account_Inr)
    (auto simp: fk_ok_def user_ids_def account_ids_def category_ids_def transaction_ids_def)

lemma fk_update_account: "update_account bk a s = Inr s' \<Longrightarrow> fk_ok s \<Longrightarrow> fk_ok s'"
  by (erule update_account_Inr)
    (auto simp: fk_ok_def user_ids_def account_ids_def category_ids_def transaction_ids_def
      key_image_replace_row dest!: in_replace_row)

lemma fk_insert_category: "insert_category c s = Inr s' \<Longrightarrow> fk_ok s \<Longrightarrow> fk_ok s'"
  by (erule insert_category_Inr)
    (auto simp: fk_ok_def user_ids_def account_ids_def category_ids_def transaction_ids_def
      intro: refers_insert)

lemma fk_update_category: "update_category c s = Inr s' \<Longrightarrow> fk_ok s \<Longrightarrow> fk_ok s'"
  by (erule update_category_Inr)
    (auto simp: fk_ok_def user_ids_def account_ids_def category_ids_def transaction_ids_def
      key_image_replace_row dest!: in_replace_row)

lemma fk_insert_transaction: "insert_transaction bk t s = Inr s' \<Longrightarrow> fk_ok s \<Longrightarrow> fk_ok s'"
  by (erule insert_transaction_Inr)
    (auto simp: fk_ok_def user_ids_def account_ids_def category_ids_def transaction_ids_def
      intro: refers_insert)

lemma fk_update_transaction: "update_transaction bk t s = Inr s' \<Longrightarrow> fk_ok s \<Longrightarrow> fk_ok s'"
  by (erule update_transaction_Inr)
    (auto simp: fk_ok_def user_ids_def account_ids_def category_ids_def transaction_ids_def
      key_image_replace_row dest!: in_replace_row)

lemma fk_insert_budget: "insert_budget bk b s = Inr s' \<Longrightarrow> fk_ok s \<Longrightarrow> fk_ok s'"
  by (erule insert_budget_Inr)
    (auto simp: fk_ok_def user_ids_def account_ids_def category_ids_def transaction_ids_def)

lemma fk_update_budget: "update_budget bk b s = Inr s' \<Longrightarrow> fk_ok s \<Longrightarrow> fk_ok s'"
  by (erule update_budget_Inr)
    (auto simp: fk_ok_def user_ids_def account_ids_def category_ids_def transaction_ids_def
      dest!: in_replace_row)

lemma exec_fk_ok: "exec bk x s = Inr s' \<Longrightarrow> fk_ok s \<Longrightarrow> fk_ok s'"
proof (cases x)
  case (DeleteUser i)
  then show "exec bk x s = Inr s' \<Longrightarrow> fk_ok s \<Longrightarrow> fk_ok s'"
    by (auto simp: fk_delete_user_row split: if_splits)
next
  case (DeleteAccount i)
  then show "exec bk x s = Inr s' \<Longrightarrow> fk_ok s \<Longrightarrow> fk_ok s'"
    by (auto simp: fk_delete_account_rows split: if_splits)
next
  case (DeleteCategory i)
  then show "exec bk x s = Inr s' \<Longrightarrow> fk_ok s \<Longrightarrow> fk_ok s'"
    by (auto simp: fk_delete_category_rows split: if_splits)
next
  case (DeleteTransaction i)
  then show "exec bk x s = Inr s' \<Longrightarrow> fk_ok s \<Longrightarrow> fk_ok s'"
    by (auto simp: fk_delete_transaction_rows split: if_splits)
next
  case (DeleteBudget i)
  then show "exec bk x s = Inr s' \<Longrightarrow> fk_ok s \<Longrightarrow> fk_ok s'"
    by (auto simp: fk_ok_def user_ids_def account_ids_def category_ids_def transaction_ids_def
        split: if_splits)
qed (simp_all add: fk_insert_user fk_update_user fk_insert_account fk_update_account
    fk_insert_category fk_update_category fk_insert_transaction fk_update_transaction
    fk_insert_budget fk_update_budget)

subsection \<open>Stored money\<close>

text \<open>
  C9, amended. Every monetary value stored in a database that a session of statements
  can reach from the empty one (every account balance, transaction amount and budget
  limit) is either a not-a-number or a decimal with exactly two fractional digits
  (exponent -2) and at most 15 digits in all; money is a decimal with an integer
  coefficient and a power-of-ten exponent throughout, never binary floating point.
\<close>

theorem money_is_fixed_point_or_nan:
  "run bk xs empty_db = Inr s \<Longrightarrow> money_stored s"
proof -
  assume r: "run bk xs empty_db = Inr s"
  show "money_stored s"
  proof (rule run_preserves [of bk money_stored, OF _ r])
    show "\<And>x s s'. exec bk x s = Inr s' \<Longrightarrow> money_stored s \<Longrightarrow> money_stored s'"
      by (rule exec_money_stored)
    show "money_stored empty_db"
      by (simp add: money_stored_def empty_db_def)
  qed
qed

theorem money_is_fixed_point_or_nan_witness:
  "run round_down example_session empty_db = Inr example_db \<and> money_stored example_db"
  using example_run money_is_fixed_point_or_nan [OF example_run] by (rule conjI)

text \<open>
  C9 as stated fails: an account opened with the balance \<open>Decimal("NaN")\<close> is accepted,
  and its stored balance is no fixed-point value with two decimal places.
\<close>

theorem money_nan_counterexample:
  "run round_down
     [InsertUser ann, InsertAccount (new_Account 10 1 ''A'' CHECKING (Some NaN) None None)]
     empty_db = Inr example_nan
   \<and> map balance (accounts example_nan) = [NaN]
   \<and> \<not> money_fixed example_nan"
  by code_simp

subsection \<open>Creating a user\<close>

text \<open>
  C8, amended. Creating a user under an unused id, with an email, a credential hash and
  a name of at most 255 characters each, returns the new user, appended to the table,
  when no existing user has exactly the same email, character by character, and fails
  with a uniqueness violation when one has; emails that differ only in the case of
  their letters are different emails.
\<close>

theorem create_user_exact_email:
  "length (email u) \<le> 255 \<Longrightarrow> length (hashed_password u) \<le> 255 \<Longrightarrow>
   length (full_name u) \<le> 255 \<Longrightarrow> u_id u \<notin> user_ids s \<Longrightarrow>
   exec bk (InsertUser u) s =
     (if email u \<in> email ` set (users s) then Inl UniqueViolation
      else Inr (s\<lparr>users := users s @ [u]\<rparr>))"
  by (simp add: insert_user_def user_strings_fit_def fits_def)

theorem create_user_exact_email_witness:
  "length (email (bob\<lparr>email := ''Ann@X.com''\<rparr>)) \<le> 255
   \<and> length (hashed_password (bob\<lparr>email := ''Ann@X.com''\<rparr>)) \<le> 255
   \<and> length (full_name (bob\<lparr>email := ''Ann@X.com''\<rparr>)) \<le> 255
   \<and> u_id (bob\<lparr>email := ''Ann@X.com''\<rparr>) \<notin> user_ids (empty_db\<lparr>users := [ann]\<rparr>)
   \<and> exec round_down (InsertUser (bob\<lparr>email := ''Ann@X.com''\<rparr>)) (empty_db\<lparr>users := [ann]\<rparr>)
       = Inr (empty_db\<lparr>users := [ann, bob\<lparr>email := ''Ann@X.com''\<rparr>]\<rparr>)
   \<and> length (email (bob\<lparr>email := ''ann@x.com''\<rparr>)) \<le> 255
   \<and> exec round_down (InsertUser (bob\<lparr>email := ''ann@x.com''\<rparr>)) (empty_db\<lparr>users := [ann]\<rparr>)
       = Inl UniqueViolation"
proof -
  have h1: "length (email (bob\<lparr>email := ''Ann@X.com''\<rparr>)) \<le> 255"
    "length (hashed_password (bob\<lparr>email := ''Ann@X.com''\<rparr>)) \<le> 255"
    "length (full_name (bob\<lparr>email := ''Ann@X.com''\<rparr>)) \<le> 255"
    "u_id (bob\<lparr>email := ''Ann@X.com''\<rparr>) \<notin> user_ids (empty_db\<lparr>users := [ann]\<rparr>)"
    by (simp_all add: user_ids_def ann_def bob_def empty_db_def)
  have h2: "length (email (bob\<lparr>email := ''ann@x.com''\<rparr>)) \<le> 255"
    "length (hashed_password (bob\<lparr>email := ''ann@x.com''\<rparr>)) \<le> 255"
    "length (full_name (bob\<lparr>email := ''ann@x.com''\<rparr>)) \<le> 255"
    "u_id (bob\<lparr>email := ''ann@x.com''\<rparr>) \<notin> user_ids (empty_db\<lparr>users := [ann]\<rparr>)"
    by (simp_all add: user_ids_def ann_def bob_def empty_db_def)
  from create_user_exact_email [OF h1, of round_down]
    create_user_exact_email [OF h2, of round_down] h1 h2
  show ?thesis
    by (simp add: ann_def bob_def empty_db_def)
qed

text \<open>
  C8 as stated fails: with ann@x.com registered, creating a user with Ann@X.com, the
  same email up to case, succeeds.
\<close>

theorem create_user_case_counterexample:
  "same_email_ci (email (bob\<lparr>email := ''Ann@X.com''\<rparr>)) (email ann)
   \<and> run round_down [InsertUser ann, InsertUser (bob\<lparr>email := ''Ann@X.com''\<rparr>)] empty_db
       = Inr (empty_db\<lparr>users := [ann, bob\<lparr>email := ''Ann@X.com''\<rparr>]\<rparr>)"
  by code_simp

subsection \<open>Writing a budget\<close>

text \<open>
  C7, amended. Distinct budgets of the same user and category may have overlapping
  windows: whether the creation or the edit of a budget is accepted depends only on its
  id and amount and on which user, category and budget ids exist, never on its period,
  start date or end date, nor on the windows of the budgets already stored.
\<close>

theorem budget_write_ignores_windows:
  "user_ids s2 = user_ids s1 \<Longrightarrow> category_ids s2 = category_ids s1 \<Longrightarrow>
   budget_ids s2 = budget_ids s1 \<Longrightarrow>
     isl (exec bk (InsertBudget (b\<lparr>period := p, start_date := d, end_date := e\<rparr>)) s2)
       = isl (exec bk (InsertBudget b) s1)
     \<and> isl (exec bk (UpdateBudget (b\<lparr>period := p, start_date := d, end_date := e\<rparr>)) s2)
       = isl (exec bk (UpdateBudget b) s1)"
  by (simp add: insert_budget_def update_budget_def split: sum.splits)

theorem budget_write_ignores_windows_witness:
  "user_ids (example_db\<lparr>budgets := map (\<lambda>b. b\<lparr>period := DAILY, end_date := Some 738001\<rparr>)
                                      (budgets example_db)\<rparr>) = user_ids example_db
   \<and> category_ids (example_db\<lparr>budgets := map (\<lambda>b. b\<lparr>period := DAILY, end_date := Some 738001\<rparr>)
                                          (budgets example_db)\<rparr>) = category_ids example_db
   \<and> budget_ids (example_db\<lparr>budgets := map (\<lambda>b. b\<lparr>period := DAILY, end_date := Some 738001\<rparr>)
                                        (budgets example_db)\<rparr>) = budget_ids example_db
   \<and> \<not> isl (exec round_down (InsertBudget weekly_food_budget) example_db)
   \<and> isl (exec round_down
            (InsertBudget (weekly_food_budget\<lparr>period := MONTHLY, start_date := 738000, end_date := None\<rparr>))
            (example_db\<lparr>budgets := map (\<lambda>b. b\<lparr>period := DAILY, end_date := Some 738001\<rparr>)
                                     (budgets example_db)\<rparr>))
       = isl (exec round_down (InsertBudget weekly_food_budget) example_db)
   \<and> isl (exec round_down
            (UpdateBudget (weekly_food_budget\<lparr>period := MONTHLY, start_date := 738000, end_date := None\<rparr>))
            (example_db\<lparr>budgets := map (\<lambda>b. b\<lparr>period := DAILY, end_date := Some 738001\<rparr>)
                                     (budgets example_db)\<rparr>))
       = isl (exec round_down (UpdateBudget weekly_food_budget) example_db)"
proof -
  have h: "user_ids (example_db\<lparr>budgets := map (\<lambda>b. b\<lparr>period := DAILY, end_date := Some 738001\<rparr>)
                                      (budgets example_db)\<rparr>) = user_ids example_db"
    "category_ids (example_db\<lparr>budgets := map (\<lambda>b. b\<lparr>period := DAILY, end_date := Some 738001\<rparr>)
                                          (budgets example_db)\<rparr>) = category_ids example_db"
    "budget_ids (example_db\<lparr>budgets := map (\<lambda>b. b\<lparr>period := DAILY, end_date := Some 738001\<rparr>)
                                        (budgets example_db)\<rparr>) = budget_ids example_db"
    by (simp_all add: user_ids_def category_ids_def budget_ids_def example_db_def)
  have e: "\<not> isl (exec round_down (InsertBudget weekly_food_budget) example_db)"
    by code_simp
  from budget_write_ignores_windows [OF h, where bk = round_down and b = weekly_food_budget
      and p = MONTHLY and d = 738000 and e = None] h e
  show ?thesis by simp
qed

text \<open>
  C7 as stated fails: after the example session, a second budget for the same user and
  category whose window lies inside the first one's open-ended window is accepted.
\<close>

theorem budget_overlap_counterexample:
  "run round_down (example_session @ [InsertBudget weekly_food_budget]) empty_db
     = Inr example_two_budgets
   \<and> \<not> budgets_disjoint example_two_budgets"
  by code_simp

subsection \<open>Keys of reachable databases\<close>

lemma exactly_one_row:
  "distinct (map f xs) \<Longrightarrow> y \<in> f ` set xs \<Longrightarrow> length (filter (\<lambda>x. f x = y) xs) = 1"
proof (induction xs)
  case Nil
  then show ?case by simp
next
  case (Cons x xs)
  show ?case
  proof (cases "f x = y")
    case True
    from Cons.prems(1) have "f x \<notin> f ` set xs"
      by simp
    then have "\<forall>z\<in>set xs. f z \<noteq> f x"
      by (metis imageI)
    with True have "filter (\<lambda>x. f x = y) xs = []"
      by (simp add: filter_empty_conv)
    with True show ?thesis by simp
  next
    case False
    with Cons show ?thesis by auto
  qed
qed

lemma run_pk_ok: "run bk xs empty_db = Inr s \<Longrightarrow> pk_ok s"
proof (rule run_preserves [of bk pk_ok])
  show "\<And>x s s'. exec bk x s = Inr s' \<Longrightarrow> pk_ok s \<Longrightarrow> pk_ok s'"
    by (rule exec_pk_ok)
  show "pk_ok empty_db"
    by (simp add: pk_ok_def empty_db_def)
qed

lemma run_fk_ok: "run bk xs empty_db = Inr s \<Longrightarrow> fk_ok s"
proof (rule run_preserves [of bk fk_ok])
  show "\<And>x s s'. exec bk x s = Inr s' \<Longrightarrow> fk_ok s \<Longrightarrow> fk_ok s'"
    by (rule exec_fk_ok)
  show "fk_ok empty_db"
    by (simp add: fk_ok_def empty_db_def)
qed

subsection \<open>Transfer links\<close>

text \<open>
  C1, amended. In every database a session of statements can reach, the link of a
  transaction, transfer or not, is either null or names exactly one transaction of the
  journal: a transaction has at most one link partner, and a named partner exists.
  Nothing more is kept: a transfer may have no partner, and the partner's type, account,
  amount and back-link are unconstrained, since rows are written and deleted one at a
  time.
\<close>

theorem link_names_one_row:
  "run bk xs empty_db = Inr s \<Longrightarrow> link_resolves s"
proof -
  assume r: "run bk xs empty_db = Inr s"
  from run_pk_ok [OF r] have d: "distinct (map t_id (transactions s))"
    by (simp add: pk_ok_def)
  from run_fk_ok [OF r]
  have fk: "\<forall>t\<in>set (transactions s). refers (linked_transaction_id t) (transaction_ids s)"
    by (simp add: fk_ok_def)
  show "link_resolves s"
    unfolding link_resolves_def
  proof
    fix t assume t: "t \<in> set (transactions s)"
    show "case linked_transaction_id t of None \<Rightarrow> True
          | Some l \<Rightarrow> length (filter (\<lambda>p. t_id p = l) (transactions s)) = 1"
    proof (cases "linked_transaction_id t")
      case None
      then show ?thesis by simp
    next
      case (Some l)
      with fk t have "l \<in> t_id ` set (transactions s)"
        by (auto simp: refers_def transaction_ids_def)
      from exactly_one_row [OF d this] Some show ?thesis by simp
    qed
  qed
qed

theorem link_names_one_row_witness:
  "run round_down example_session empty_db = Inr example_db \<and> link_resolves example_db"
  using example_run link_names_one_row [OF example_run] by (rule conjI)

text \<open>
  C1 as stated fails: a single transfer row with no link is accepted, and after one leg
  of the example's pair is deleted the other leg remains, a transfer with no partner.
\<close>

theorem lone_transfer_leg_counterexample:
  "run round_down
     [InsertUser ann, InsertAccount (new_Account 10 1 ''A'' CHECKING None None None),
      InsertTransaction leg_a] empty_db = Inr example_lone_leg
   \<and> \<not> transfer_paired example_lone_leg
   \<and> run round_down (example_session @ [DeleteTransaction 20]) empty_db = Inr example_without_leg_a
   \<and> \<not> transfer_paired example_without_leg_a"
  by code_simp

subsection \<open>The category tree\<close>

text \<open>
  C6, amended. In every database a session of statements can reach, so after every
  create or reparent, the parent of a category is either null or names exactly one
  category of the table. Nothing more is kept: a category may be among its own
  ancestors, and a category and its parent may have different owners.
\<close>

theorem parent_names_one_row:
  "run bk xs empty_db = Inr s \<Longrightarrow> parent_resolves s"
proof -
  assume r: "run bk xs empty_db = Inr s"
  from run_pk_ok [OF r] have d: "distinct (map c_id (categories s))"
    by (simp add: pk_ok_def)
  from run_fk_ok [OF r]
  have fk: "\<forall>c\<in>set (categories s). refers (parent_category_id c) (category_ids s)"
    by (simp add: fk_ok_def)
  show "parent_resolves s"
    unfolding parent_resolves_def
  proof
    fix c assume c: "c \<in> set (categories s)"
    show "case parent_category_id c of None \<Rightarrow> True
          | Some p \<Rightarrow> length (filter (\<lambda>k. c_id k = p) (categories s)) = 1"
    proof (cases "parent_category_id c")
      case None
      then show ?thesis by simp
    next
      case (Some p)
      with fk c have "p \<in> c_id ` set (categories s)"
        by (auto simp: refers_def category_ids_def)
      from exactly_one_row [OF d this] Some show ?thesis by simp
    qed
  qed
qed

theorem parent_names_one_row_witness:
  "run round_down example_session empty_db = Inr example_db \<and> parent_resolves example_db"
  using example_run parent_names_one_row [OF example_run] by (rule conjI)

text \<open>
  C6 as stated fails: reparenting Groceries under its own subcategory Bakery is accepted
  and puts Groceries among its own ancestors; handing Bakery to the second user is
  accepted and leaves parent and child with different owners.
\<close>

theorem category_tree_counterexample:
  "run round_down (example_session @ [UpdateCategory (groceries\<lparr>parent_category_id := Some 31\<rparr>)])
     empty_db = Inr example_cycle
   \<and> 30 \<in> set (ancestors (categories example_cycle) 2 (Some 31))
   \<and> \<not> category_tree_ok example_cycle
   \<and> run round_down (example_session @ [UpdateCategory (bakery\<lparr>c_user_id := Some 2\<rparr>)])
       empty_db = Inr example_mixed_owner
   \<and> \<not> category_tree_ok example_mixed_owner"
  by code_simp

end
